theory Spec2Isabelle
  imports Main
begin

section \<open>Python values, errors and the built-in dict\<close>

text \<open>
  The class \<open>StorageObject\<close> of \<open>storageobject.py\<close> wraps one Python \<open>dict\<close>.
  Python is dynamically typed: the annotation \<open>key: str\<close> is not enforced, and the
  tests pass a list as key and \<open>None\<close> as key collection. Keys, values and arguments
  are therefore Python objects of any of the kinds below. \<open>bool\<close> and \<open>float\<close> are
  left out, so that equality of hashable values is structural (\<open>True == 1\<close> in Python).
\<close>

datatype pyval =
    PNone
  | PInt int
  | PStr string
  | PList "pyval list"
  | PTuple "pyval list"
  | PDict "(pyval \<times> pyval) list"

text \<open>
  A \<open>dict\<close> keeps its entries in insertion order: an association list, first
  component the key.
\<close>

type_synonym pydict = "(pyval \<times> pyval) list"

text \<open>
  The exceptions the methods can raise: \<open>TypeError\<close> (with its two messages,
  "unhashable type" and "object is not iterable") and \<open>AttributeError\<close>.
\<close>

datatype type_error = Unhashable | NotIterable

datatype error = TypeError type_error | AttributeError

text \<open>\<open>hash(x)\<close> succeeds: lists and dicts have no hash, a tuple hashes its elements.\<close>

fun hashable :: "pyval \<Rightarrow> bool" where
  "hashable PNone = True"
| "hashable (PInt i) = True"
| "hashable (PStr s) = True"
| "hashable (PList xs) = False"
| "hashable (PTuple xs) = list_all hashable xs"
| "hashable (PDict kvs) = False"

text \<open>\<open>key in d\<close>: hashes the key first.\<close>

definition dict_contains :: "pydict \<Rightarrow> pyval \<Rightarrow> error + bool" where
  "dict_contains d key =
     (if hashable key then Inr (map_of d key \<noteq> None) else Inl (TypeError Unhashable))"

text \<open>\<open>d.get(key, default)\<close>: hashes the key first.\<close>

definition dict_get :: "pydict \<Rightarrow> pyval \<Rightarrow> pyval \<Rightarrow> error + pyval" where
  "dict_get d key dflt =
     (if hashable key
      then (case map_of d key of None \<Rightarrow> Inr dflt | Some v \<Rightarrow> Inr v)
      else Inl (TypeError Unhashable))"

text \<open>
  \<open>d[key] = val\<close>: hashes the key first; an existing key keeps its position and gets
  the new value, a new key is appended.
\<close>

fun dict_store :: "pydict \<Rightarrow> pyval \<Rightarrow> pyval \<Rightarrow> pydict" where
  "dict_store [] key val = [(key, val)]"
| "dict_store ((k, v) # d) key val =
     (if k = key then (k, val) # d else (k, v) # dict_store d key val)"

definition dict_setitem :: "pydict \<Rightarrow> pyval \<Rightarrow> pyval \<Rightarrow> error + pydict" where
  "dict_setitem d key val =
     (if hashable key then Inr (dict_store d key val) else Inl (TypeError Unhashable))"

text \<open>
  \<open>d.pop(key, default)\<close>, returning the popped value and the dict left. CPython's
  \<open>dict.pop\<close> (\<open>_PyDict_Pop\<close> in \<open>Objects/dictobject.c\<close>) first tests whether the
  dict is empty and then returns the default at once; only for a dict with entries
  does it hash the key. So \<open>{}.pop([], None)\<close> is \<open>None\<close>, while
  \<open>{'a': 1}.pop([], None)\<close> raises \<open>TypeError\<close>.
\<close>

definition dict_delete :: "pydict \<Rightarrow> pyval \<Rightarrow> pydict" where
  "dict_delete d key = filter (\<lambda>kv. fst kv \<noteq> key) d"

definition dict_pop :: "pydict \<Rightarrow> pyval \<Rightarrow> pyval \<Rightarrow> error + (pyval \<times> pydict)" where
  "dict_pop d key dflt =
     (if d = [] then Inr (dflt, d)
      else if \<not> hashable key then Inl (TypeError Unhashable)
      else (case map_of d key of
              None \<Rightarrow> Inr (dflt, d)
            | Some v \<Rightarrow> Inr (v, dict_delete d key)))"

text \<open>\<open>data.items()\<close>: only a dict has the method.\<close>

fun items :: "pyval \<Rightarrow> error + (pyval \<times> pyval) list" where
  "items (PDict kvs) = Inr kvs"
| "items other = Inl AttributeError"

text \<open>
  \<open>for key in keys\<close>: the elements an iteration yields. A string yields its
  characters as strings of length one, a dict its keys; \<open>None\<close> and an int are not
  iterable.
\<close>

fun iter :: "pyval \<Rightarrow> error + pyval list" where
  "iter (PList xs) = Inr xs"
| "iter (PTuple xs) = Inr xs"
| "iter (PStr s) = Inr (map (\<lambda>c. PStr [c]) s)"
| "iter (PDict kvs) = Inr (map fst kvs)"
| "iter PNone = Inl (TypeError NotIterable)"
| "iter (PInt i) = Inl (TypeError NotIterable)"

text \<open>An optional parameter declared \<open>default: Any = None\<close>.\<close>

fun default_arg :: "pyval option \<Rightarrow> pyval" where
  "default_arg None = PNone"
| "default_arg (Some v) = v"

section \<open>The class StorageObject\<close>

text \<open>
  The object's state is its field \<open>_data\<close>. The field \<open>_lock\<close> is a reentrant lock
  that every method takes on entry and releases on exit; in the sequential runs
  modelled here it is always free and has no effect.

  A method that mutates returns its outcome (the exception raised, or \<open>()\<close> for
  \<open>None\<close>) together with the state it leaves; a method that only reads returns its
  outcome.
\<close>

record StorageObject =
  data :: pydict

definition init :: StorageObject where
  "init = \<lparr>data = []\<rparr>"

definition set_entry ::
  "StorageObject \<Rightarrow> pyval \<Rightarrow> pyval \<Rightarrow> (error + unit) \<times> StorageObject" where
  "set_entry self key val =
     (case dict_setitem (data self) key val of
        Inl e \<Rightarrow> (Inl e, self)
      | Inr d \<Rightarrow> (Inr (), self\<lparr>data := d\<rparr>))"

text \<open>
  The loop of \<open>set_many\<close> assigns into \<open>_data\<close> directly; an exception leaves the
  assignments made before it.
\<close>

fun set_many_loop :: "pydict \<Rightarrow> (pyval \<times> pyval) list \<Rightarrow> (error + unit) \<times> pydict" where
  "set_many_loop d [] = (Inr (), d)"
| "set_many_loop d ((key, val) # rest) =
     (case dict_setitem d key val of
        Inl e \<Rightarrow> (Inl e, d)
      | Inr d' \<Rightarrow> set_many_loop d' rest)"

definition set_many :: "StorageObject \<Rightarrow> pyval \<Rightarrow> (error + unit) \<times> StorageObject" where
  "set_many self dat =
     (case items dat of
        Inl e \<Rightarrow> (Inl e, self)
      | Inr kvs \<Rightarrow>
          (case set_many_loop (data self) kvs of (r, d) \<Rightarrow> (r, self\<lparr>data := d\<rparr>)))"

definition has :: "StorageObject \<Rightarrow> pyval \<Rightarrow> error + bool" where
  "has self key = dict_contains (data self) key"

definition get :: "StorageObject \<Rightarrow> pyval \<Rightarrow> pyval option \<Rightarrow> error + pyval" where
  "get self key dflt = dict_get (data self) key (default_arg dflt)"

text \<open>
  The dict comprehension of \<open>get_many\<close>: for each key in turn, look it up in
  \<open>_data\<close> and store the result under that key in the dict being built.
\<close>

fun get_many_loop :: "pydict \<Rightarrow> pyval \<Rightarrow> pyval list \<Rightarrow> pydict \<Rightarrow> error + pydict" where
  "get_many_loop d dflt [] acc = Inr acc"
| "get_many_loop d dflt (key # rest) acc =
     (case dict_get d key dflt of
        Inl e \<Rightarrow> Inl e
      | Inr v \<Rightarrow>
          (case dict_setitem acc key v of
             Inl e \<Rightarrow> Inl e
           | Inr acc' \<Rightarrow> get_many_loop d dflt rest acc'))"

definition get_many :: "StorageObject \<Rightarrow> pyval \<Rightarrow> pyval option \<Rightarrow> error + pyval" where
  "get_many self keys dflt =
     (case iter keys of
        Inl e \<Rightarrow> Inl e
      | Inr ks \<Rightarrow>
          (case get_many_loop (data self) (default_arg dflt) ks [] of
             Inl e \<Rightarrow> Inl e
           | Inr res \<Rightarrow> Inr (PDict res)))"

definition remove_entry :: "StorageObject \<Rightarrow> pyval \<Rightarrow> (error + unit) \<times> StorageObject" where
  "remove_entry self key =
     (case dict_pop (data self) key PNone of
        Inl e \<Rightarrow> (Inl e, self)
      | Inr (v, d) \<Rightarrow> (Inr (), self\<lparr>data := d\<rparr>))"

section \<open>The batch write as the specification words it\<close>

text \<open>
  The specification describes \<open>set_many\<close> as applying \<open>set\<close> to every pair of the
  mapping, in the mapping's iteration order. This definition follows those words: it
  calls the method \<open>set\<close> once per pair and stops at the first call that raises.
\<close>

fun set_many_spec ::
  "StorageObject \<Rightarrow> (pyval \<times> pyval) list \<Rightarrow> (error + unit) \<times> StorageObject" where
  "set_many_spec self [] = (Inr (), self)"
| "set_many_spec self ((key, val) # rest) =
     (case set_entry self key val of
        (Inl e, self') \<Rightarrow> (Inl e, self')
      | (Inr u, self') \<Rightarrow> set_many_spec self' rest)"

section \<open>Well-formed dicts\<close>

text \<open>A real \<open>dict\<close> holds each key once, and every key of it is hashable.\<close>

definition wf_dict :: "pydict \<Rightarrow> bool" where
  "wf_dict d = (distinct (map fst d) \<and> list_all hashable (map fst d))"

section \<open>Properties of the dict operations\<close>

lemma map_of_dict_store: "map_of (dict_store d key val) = (map_of d)(key \<mapsto> val)"
  by (induction d key val rule: dict_store.induct) (auto simp: fun_eq_iff)

lemma dict_store_twice: "dict_store (dict_store d key v1) key v2 = dict_store d key v2"
  by (induction d key v1 rule: dict_store.induct) auto

lemma dict_store_not_Nil: "dict_store d key val \<noteq> []"
  by (cases d) (auto split: if_splits)

lemma keys_dict_store:
  "map fst (dict_store d key val) =
     (if key \<in> set (map fst d) then map fst d else map fst d @ [key])"
  by (induction d key val rule: dict_store.induct) auto

lemma dict_delete_Nil: "dict_delete [] key = []"
  by (simp add: dict_delete_def)

lemma map_of_dict_delete: "map_of (dict_delete d key) = (map_of d)(key := None)"
  by (induction d) (auto simp: dict_delete_def fun_eq_iff)

lemma dict_delete_twice: "dict_delete (dict_delete d key) key = dict_delete d key"
  by (simp add: dict_delete_def)

lemma dict_delete_absent: "map_of d key = None \<Longrightarrow> dict_delete d key = d"
  by (induction d) (auto simp: dict_delete_def split: if_splits)

lemma wf_dict_store: "wf_dict d \<Longrightarrow> hashable key \<Longrightarrow> wf_dict (dict_store d key val)"
  by (simp add: wf_dict_def keys_dict_store)

lemma wf_dict_delete: "wf_dict d \<Longrightarrow> wf_dict (dict_delete d key)"
  by (simp add: wf_dict_def dict_delete_def distinct_map_filter list_all_iff)

section \<open>What each method returns and leaves\<close>

lemma has_eq:
  "has self key =
     (if hashable key then Inr (map_of (data self) key \<noteq> None)
      else Inl (TypeError Unhashable))"
  by (simp add: has_def dict_contains_def)

lemma get_eq:
  "get self key dflt =
     (if hashable key
      then Inr (case map_of (data self) key of None \<Rightarrow> default_arg dflt | Some v \<Rightarrow> v)
      else Inl (TypeError Unhashable))"
  by (simp add: get_def dict_get_def split: option.splits)

lemma fst_set_entry:
  "fst (set_entry self key val) =
     (if hashable key then Inr () else Inl (TypeError Unhashable))"
  by (simp add: set_entry_def dict_setitem_def)

lemma data_snd_set_entry:
  "data (snd (set_entry self key val)) =
     (if hashable key then dict_store (data self) key val else data self)"
  by (simp add: set_entry_def dict_setitem_def)

lemma fst_remove_entry:
  "fst (remove_entry self key) =
     (if data self = [] \<or> hashable key then Inr () else Inl (TypeError Unhashable))"
  by (auto simp: remove_entry_def dict_pop_def split: option.splits)

lemma data_snd_remove_entry:
  "data (snd (remove_entry self key)) =
     (if hashable key then dict_delete (data self) key else data self)"
  by (cases "map_of (data self) key")
     (auto simp: remove_entry_def dict_pop_def dict_delete_absent dict_delete_Nil)

text \<open>
  The loop of \<open>set_many\<close>, which writes into the dict directly, does what a call of
  \<open>set\<close> per pair does.
\<close>

lemma set_many_loop_set_many_spec:
  "(case set_many_loop (data self) kvs of (r, d) \<Rightarrow> (r, self\<lparr>data := d\<rparr>)) =
     set_many_spec self kvs"
proof (induction kvs arbitrary: self)
  case Nil
  show ?case by simp
next
  case (Cons kv kvs)
  obtain key val where kv: "kv = (key, val)" by (cases kv)
  show ?case
  proof (cases "hashable key")
    case True
    with Cons [of "self\<lparr>data := dict_store (data self) key val\<rparr>"] kv show ?thesis
      by (simp add: set_entry_def dict_setitem_def)
  next
    case False
    with kv show ?thesis by (simp add: set_entry_def dict_setitem_def)
  qed
qed

text \<open>
  For hashable keys the comprehension of \<open>get_many\<close> never raises, and the dict it
  builds maps each of the keys to its stored value or to the default.
\<close>

lemma get_many_loop_lookup:
  "list_all hashable ks \<Longrightarrow>
     \<exists>res. get_many_loop d dflt ks acc = Inr res \<and>
       map_of res = (\<lambda>k. if k \<in> set ks
                           then Some (case map_of d k of None \<Rightarrow> dflt | Some v \<Rightarrow> v)
                           else map_of acc k)"
proof (induction ks arbitrary: acc)
  case Nil
  then show ?case by simp
next
  case (Cons key rest)
  let ?v = "case map_of d key of None \<Rightarrow> dflt | Some v \<Rightarrow> v"
  from Cons.prems have h: "hashable key" and r: "list_all hashable rest" by simp_all
  from Cons.IH [OF r, of "dict_store acc key ?v"] obtain res where
    res: "get_many_loop d dflt rest (dict_store acc key ?v) = Inr res"
      "map_of res = (\<lambda>k. if k \<in> set rest
                           then Some (case map_of d k of None \<Rightarrow> dflt | Some v \<Rightarrow> v)
                           else map_of (dict_store acc key ?v) k)"
    by blast
  from h res(1) have "get_many_loop d dflt (key # rest) acc = Inr res"
    by (simp add: dict_get_def dict_setitem_def split: option.splits)
  moreover from res(2) have "map_of res = (\<lambda>k. if k \<in> set (key # rest)
                           then Some (case map_of d k of None \<Rightarrow> dflt | Some v \<Rightarrow> v)
                           else map_of acc k)"
    by (auto simp: fun_eq_iff map_of_dict_store)
  ultimately show ?case by blast
qed

lemma get_many_never_list: "get_many self keys dflt \<noteq> Inr (PList vs)"
  by (simp add: get_many_def split: sum.splits)

section \<open>Every reachable store holds a well-formed dict\<close>

lemma wf_init: "wf_dict (data init)"
  by (simp add: init_def wf_dict_def)

lemma wf_set_entry:
  "wf_dict (data self) \<Longrightarrow> wf_dict (data (snd (set_entry self key val)))"
  by (simp add: data_snd_set_entry wf_dict_store)

lemma wf_remove_entry:
  "wf_dict (data self) \<Longrightarrow> wf_dict (data (snd (remove_entry self key)))"
  by (simp add: data_snd_remove_entry wf_dict_delete)

lemma wf_set_many_loop: "wf_dict d \<Longrightarrow> wf_dict (snd (set_many_loop d kvs))"
proof (induction d kvs rule: set_many_loop.induct)
  case (1 d)
  then show ?case by simp
next
  case (2 d key val rest)
  then show ?case
    by (cases "hashable key") (simp_all add: dict_setitem_def wf_dict_store)
qed

lemma wf_set_many:
  assumes "wf_dict (data self)"
  shows "wf_dict (data (snd (set_many self dat)))"
proof (cases dat)
  case (PDict kvs)
  obtain r d where rd: "set_many_loop (data self) kvs = (r, d)"
    by (cases "set_many_loop (data self) kvs")
  with wf_set_many_loop [OF assms, of kvs] have "wf_dict d" by simp
  with PDict rd show ?thesis by (simp add: set_many_def)
qed (use assms in \<open>simp_all add: set_many_def\<close>)

section \<open>The claims\<close>

text \<open>
  Keys are compared with structural equality. A key in the sense of the specification
  is a string; the theorems below that need a usable key ask only that it is
  hashable, which every string is.
\<close>

subsection \<open>C1: the result of the batch read\<close>

text \<open>
  C1 says that \<open>get_many(keys, default)\<close> returns a sequence as long as \<open>keys\<close>
  and in its order, a duplicate key giving a duplicate entry. The method builds a
  dict instead (\<open>get_many_never_list\<close>), in which a repeated key has one entry.
  After \<open>set('dup', 42)\<close> on a new store, \<open>get_many(['dup', 'dup'])\<close> is the dict
  \<open>{'dup': 42}\<close>, not the list \<open>[42, 42]\<close> that \<open>test_get_many_duplicates\<close> expects.
\<close>

theorem get_many_duplicates_returns_dict:
  "get_many (snd (set_entry init (PStr ''dup'') (PInt 42)))
     (PList [PStr ''dup'', PStr ''dup'']) None = Inr (PDict [(PStr ''dup'', PInt 42)]) \<and>
   get_many (snd (set_entry init (PStr ''dup'') (PInt 42)))
     (PList [PStr ''dup'', PStr ''dup'']) None \<noteq> Inr (PList [PInt 42, PInt 42])"
  by (simp add: get_many_def set_entry_def init_def dict_setitem_def dict_get_def)

subsection \<open>C2: the batch read of no keys\<close>

text \<open>
  C2 says that \<open>get_many\<close> returns an empty sequence, without raising, when \<open>keys\<close>
  is empty or is \<open>None\<close>. In every state \<open>get_many(None)\<close> raises \<open>TypeError\<close>,
  since \<open>None\<close> is not iterable (\<open>test_get_many_with_none_keys\<close> expects \<open>[]\<close>), and
  \<open>get_many([])\<close> returns the empty dict.
\<close>

theorem get_many_none_raises:
  "get_many self PNone dflt = Inl (TypeError NotIterable) \<and>
   get_many self (PList []) dflt = Inr (PDict [])"
  by (simp add: get_many_def)

subsection \<open>C3: key validation on the write path\<close>

text \<open>
  C3 says that \<open>set(key, value)\<close> completes without raising for every key that
  \<open>has\<close>, \<open>get\<close> and \<open>remove\<close> reject. It does not: on the store holding
  \<open>{'a': 1}\<close> the key \<open>[]\<close> is rejected by \<open>has\<close>, \<open>get\<close> and \<open>remove\<close>, and
  \<open>set([], 2)\<close> raises as well.
\<close>

theorem set_entry_unhashable_key_raises:
  "has (snd (set_entry init (PStr ''a'') (PInt 1))) (PList []) = Inl (TypeError Unhashable) \<and>
   get (snd (set_entry init (PStr ''a'') (PInt 1))) (PList []) None
     = Inl (TypeError Unhashable) \<and>
   fst (remove_entry (snd (set_entry init (PStr ''a'') (PInt 1))) (PList []))
     = Inl (TypeError Unhashable) \<and>
   fst (set_entry (snd (set_entry init (PStr ''a'') (PInt 1))) (PList []) (PInt 2)) \<noteq> Inr ()"
  by (simp add: has_eq get_eq fst_set_entry fst_remove_entry data_snd_set_entry init_def
        dict_store_not_Nil)

text \<open>
  C3, amended: \<open>set(key, value)\<close> raises exactly when \<open>has(key)\<close> and \<open>get(key)\<close>
  raise, with the same error: it raises \<open>TypeError\<close> for an unhashable key, and then
  leaves the map unchanged, and it completes for every hashable key. The write path
  validates the key as the lookup path does.
\<close>

theorem set_entry_validates_key_like_lookup:
  "(fst (set_entry self k v) = Inl e) = (has self k = Inl e) \<and>
   (fst (set_entry self k v) = Inl e) = (get self k dflt = Inl e) \<and>
   fst (set_entry self k v) = (if hashable k then Inr () else Inl (TypeError Unhashable)) \<and>
   (fst (set_entry self k v) = Inl e \<longrightarrow> snd (set_entry self k v) = self)"
  by (auto simp: fst_set_entry has_eq get_eq set_entry_def dict_setitem_def)

theorem set_entry_validates_key_like_lookup_witness:
  "fst (set_entry init (PList []) (PInt 1)) = Inl (TypeError Unhashable) \<and>
   has init (PList []) = Inl (TypeError Unhashable) \<and>
   get init (PList []) None = Inl (TypeError Unhashable) \<and>
   snd (set_entry init (PList []) (PInt 1)) = init"
  using set_entry_validates_key_like_lookup
          [of init "PList []" "PInt 1" "TypeError Unhashable" None]
  by (simp add: fst_set_entry)

subsection \<open>C4: the one error\<close>

text \<open>
  C4 says that \<open>has\<close>, \<open>get\<close> and \<open>remove\<close> each raise for every invalid (unhashable)
  key. \<open>has\<close> and \<open>get\<close> do (\<open>has_eq\<close>, \<open>get_eq\<close>), and \<open>remove\<close> does on a store
  with entries (\<open>fst_remove_entry\<close>). On an empty store \<open>remove\<close> does not: popping
  from an empty dict returns the default before the key is hashed. On a new store
  \<open>remove([])\<close> returns normally and changes nothing, where \<open>has([])\<close> and \<open>get([])\<close>
  raise and \<open>test_unhashable_key_errors\<close> expects \<open>TypeError\<close> from all three.
\<close>

theorem remove_entry_unhashable_key_empty_store:
  "remove_entry init (PList []) = (Inr (), init) \<and>
   has init (PList []) = Inl (TypeError Unhashable) \<and>
   get init (PList []) None = Inl (TypeError Unhashable)"
  by (simp add: remove_entry_def dict_pop_def init_def has_eq get_eq)

subsection \<open>C5: a stored None is present\<close>

text \<open>
  C5: for every key \<open>k\<close>, after \<open>set(k, None)\<close> the call \<open>has(k)\<close> returns true and
  \<open>get(k, fallback)\<close> returns \<open>None\<close>, not the fallback.
\<close>

theorem stored_none_is_present:
  "hashable k \<Longrightarrow>
     fst (set_entry self k PNone) = Inr () \<and>
     has (snd (set_entry self k PNone)) k = Inr True \<and>
     get (snd (set_entry self k PNone)) k (Some fallback) = Inr PNone"
  by (simp add: fst_set_entry has_eq get_eq data_snd_set_entry map_of_dict_store)

theorem stored_none_is_present_witness:
  "hashable (PStr ''none_key'') \<and>
   fst (set_entry init (PStr ''none_key'') PNone) = Inr () \<and>
   has (snd (set_entry init (PStr ''none_key'') PNone)) (PStr ''none_key'') = Inr True \<and>
   get (snd (set_entry init (PStr ''none_key'') PNone)) (PStr ''none_key'')
     (Some (PStr ''def'')) = Inr PNone"
  using stored_none_is_present [of "PStr ''none_key''" init "PStr ''def''"] by simp

subsection \<open>C6: overwriting\<close>

text \<open>
  C6: for every key \<open>k\<close> and values \<open>v1\<close>, \<open>v2\<close>, after \<open>set(k, v1)\<close> and then
  \<open>set(k, v2)\<close> the call \<open>get(k)\<close> returns \<open>v2\<close>. The second \<open>set\<close> replaces the
  value with nothing of \<open>v1\<close> left: the state is the one \<open>set(k, v2)\<close> alone gives.
\<close>

theorem set_entry_overwrites:
  "hashable k \<Longrightarrow>
     fst (set_entry self k v1) = Inr () \<and>
     fst (set_entry (snd (set_entry self k v1)) k v2) = Inr () \<and>
     get (snd (set_entry (snd (set_entry self k v1)) k v2)) k dflt = Inr v2 \<and>
     snd (set_entry (snd (set_entry self k v1)) k v2) = snd (set_entry self k v2)"
  by (simp add: fst_set_entry get_eq data_snd_set_entry map_of_dict_store dict_store_twice)

theorem set_entry_overwrites_witness:
  "hashable (PStr ''foo'') \<and>
   get (snd (set_entry (snd (set_entry init (PStr ''foo'') (PInt 1))) (PStr ''foo'') (PInt 2)))
     (PStr ''foo'') None = Inr (PInt 2)"
  using set_entry_overwrites [of "PStr ''foo''" init "PInt 1" "PInt 2" None]
  by (simp add: get_eq data_snd_set_entry init_def)

subsection \<open>C7: removing twice, removing an absent key\<close>

text \<open>
  C7: in every state and for every key \<open>k\<close>, \<open>remove(k)\<close> followed by \<open>remove(k)\<close>
  leaves the state that one \<open>remove(k)\<close> leaves; and where \<open>k\<close> is absent
  (\<open>has(k)\<close> is false), \<open>remove(k)\<close> changes nothing and raises nothing. For a
  hashable key neither call raises.
\<close>

theorem remove_entry_idempotent:
  "snd (remove_entry (snd (remove_entry self k)) k) = snd (remove_entry self k) \<and>
   (has self k = Inr False \<longrightarrow> remove_entry self k = (Inr (), self)) \<and>
   (hashable k \<longrightarrow> fst (remove_entry self k) = Inr () \<and>
      fst (remove_entry (snd (remove_entry self k)) k) = Inr ())"
  by (auto simp: data_snd_remove_entry fst_remove_entry dict_delete_twice has_eq
        remove_entry_def dict_pop_def split: if_splits option.splits)

theorem remove_entry_idempotent_witness:
  "has (snd (set_entry init (PStr ''key'') (PStr ''value''))) (PStr ''no_such_key'') = Inr False \<and>
   hashable (PStr ''no_such_key'') \<and>
   remove_entry (snd (set_entry init (PStr ''key'') (PStr ''value''))) (PStr ''no_such_key'') =
     (Inr (), snd (set_entry init (PStr ''key'') (PStr ''value'')))"
  using remove_entry_idempotent
          [of "snd (set_entry init (PStr ''key'') (PStr ''value''))" "PStr ''no_such_key''"]
  by (simp add: has_eq data_snd_set_entry init_def)

subsection \<open>C8: the batch write\<close>

text \<open>
  C8: for every mapping \<open>entries\<close>, \<open>set_many(entries)\<close> has the outcome and leaves
  the state of applying \<open>set(key, value)\<close> to each pair of \<open>entries\<close> in its iteration
  order, and \<open>set_many\<close> of the empty mapping leaves the map unchanged.
\<close>

theorem set_many_refines_set_each:
  "set_many self (PDict kvs) = set_many_spec self kvs \<and>
   set_many self (PDict []) = (Inr (), self)"
  using set_many_loop_set_many_spec [of self kvs] by (simp add: set_many_def)

subsection \<open>C9: the new store\<close>

text \<open>
  C9: on a newly created store, for every key \<open>k\<close>, \<open>has(k)\<close> returns false and
  \<open>get(k, default)\<close> returns the default given, \<open>None\<close> when none is given.
\<close>

theorem fresh_store_default_fallback:
  "hashable k \<Longrightarrow>
     has init k = Inr False \<and> get init k (Some dflt) = Inr dflt \<and> get init k None = Inr PNone"
  by (simp add: has_eq get_eq init_def)

theorem fresh_store_default_fallback_witness:
  "hashable (PStr ''missing'') \<and> has init (PStr ''missing'') = Inr False \<and>
   get init (PStr ''missing'') (Some (PStr ''def'')) = Inr (PStr ''def'') \<and>
   get init (PStr ''missing'') None = Inr PNone"
  using fresh_store_default_fallback [of "PStr ''missing''" "PStr ''def''"] by simp

subsection \<open>C10: other keys are untouched\<close>

text \<open>
  C10: in every state, for every key \<open>k\<close>, value \<open>v\<close> and key \<open>k'\<close> other than \<open>k\<close>,
  \<open>has(k')\<close> and \<open>get(k', d)\<close> return after \<open>set(k, v)\<close>, and after \<open>remove(k)\<close>, what
  they returned before.
\<close>

theorem set_remove_frame:
  "k' \<noteq> k \<Longrightarrow>
     has (snd (set_entry self k v)) k' = has self k' \<and>
     get (snd (set_entry self k v)) k' dflt = get self k' dflt \<and>
     has (snd (remove_entry self k)) k' = has self k' \<and>
     get (snd (remove_entry self k)) k' dflt = get self k' dflt"
  by (simp add: has_eq get_eq data_snd_set_entry data_snd_remove_entry map_of_dict_store
        map_of_dict_delete)

theorem set_remove_frame_witness:
  "PStr ''b'' \<noteq> PStr ''a'' \<and>
   has (snd (set_entry (snd (set_entry init (PStr ''b'') (PInt 2))) (PStr ''a'') (PInt 1)))
     (PStr ''b'') = Inr True \<and>
   get (snd (remove_entry (snd (set_entry init (PStr ''b'') (PInt 2))) (PStr ''a'')))
     (PStr ''b'') None = Inr (PInt 2)"
  using set_remove_frame
          [of "PStr ''b''" "PStr ''a''" "snd (set_entry init (PStr ''b'') (PInt 2))" "PInt 1" None]
  by (simp add: has_eq get_eq data_snd_set_entry init_def)

end
